theory Spec2Isabelle
  imports Main
begin

section \<open>Data model of the crawler (src/crawler.py)\<close>

text \<open>
  A news item is the Python dict the listing endpoint delivers: string keys, string
  values. The characters of a \<^typ>\<open>string\<close> stand for the characters of the Python
  \<open>str\<close>. Reading a key that is absent raises \<open>KeyError\<close>.
\<close>

type_synonym news_item = "string \<rightharpoonup> string"

datatype py_error =
    KeyError string
  | TypeError
  | ValueError
  | OSError
  | IntegrityError
  | OperationalError

definition getitem :: "news_item \<Rightarrow> string \<Rightarrow> py_error + string" where
  "getitem d k = (case d k of None \<Rightarrow> Inl (KeyError k) | Some v \<Rightarrow> Inr v)"

text \<open>Python truthiness of a value that is \<open>None\<close> or a \<open>str\<close>.\<close>

definition truthy :: "string option \<Rightarrow> bool" where
  "truthy v = (case v of None \<Rightarrow> False | Some s \<Rightarrow> s \<noteq> [])"

text \<open>A row of the table \<open>news\<close> (crawler.py 22-32); the primary key
  \<open>content_hash\<close> is the key of the map that models the table.\<close>

record news_row =
  title :: string
  summary :: string
  publish_time :: string
  keywords_col :: string
  crawl_time :: string
  content_file_path :: "string option"

type_synonym news_table = "string \<rightharpoonup> news_row"

text \<open>The value of a \<open>datetime\<close> object.\<close>

record datetime =
  dt_year :: nat
  dt_month :: nat
  dt_day :: nat
  dt_hour :: nat
  dt_minute :: nat
  dt_second :: nat

text \<open>
  The crawler object and the two library functions whose code is not part of the
  repository: \<open>hashlib.md5(s.encode('utf-8')).hexdigest()\<close> and
  \<open>datetime.strptime(s, '%Y-%m-%d %H:%M:%S')\<close> (\<open>None\<close> where it raises
  \<open>ValueError\<close>). Both are pure functions and are taken as parameters.
\<close>

record env =
  content_base_dir :: string
  md5_hexdigest :: "string \<Rightarrow> string"
  strptime :: "string \<Rightarrow> datetime option"

text \<open>What is printed and which outside calls are made, in order.\<close>

datatype event =
    Print_fetching string
  | Http_get string
  | Sleep
  | Print_write_failed
  | Print_save_failed string py_error

text \<open>
  The persistent and observable state: the table, the directories and files of the
  file system (by path as spelled), and the trace of events.
\<close>

record state =
  db :: news_table
  dirs :: "string set"
  files :: "string \<rightharpoonup> string"
  trace :: "event list"

text \<open>The outcome of \<open>open(path, 'w')\<close> followed by \<open>f.write(text)\<close>, where the
  directory of the path exists: both succeed, \<open>open\<close> raises, or \<open>write\<close> raises
  after the file was truncated and the given part of the text was written.\<close>

datatype write_outcome = Written | Open_error | Write_error string

text \<open>
  What the outside world does while one item of the batch is processed: the text the
  detail fetcher extracts from a URL (\<open>None\<close> on any failure inside
  \<open>fetch_detailed_content\<close>, which catches every exception), the clock, whether
  \<open>os.makedirs\<close> raises for a directory and how many of its leading levels
  exist when it does, the outcome of writing a file, whether \<open>c.execute\<close> of an
  INSERT or UPDATE raises \<open>sqlite3.OperationalError\<close> and whether SQLite then
  rolls the open transaction back (as it does when the disk is full), and the data
  base's \<open>CURRENT_TIMESTAMP\<close>.
\<close>

record world =
  detail_page :: "string \<Rightarrow> string option"
  now :: datetime
  makedirs_raises :: "string \<Rightarrow> bool"
  makedirs_partial :: "string \<Rightarrow> nat"
  file_io :: "string \<Rightarrow> write_outcome"
  execute_raises :: bool
  rolls_back :: bool
  current_timestamp :: string

section \<open>Paths (posixpath)\<close>

definition startswith_sep :: "string \<Rightarrow> bool" where
  "startswith_sep b = (case b of [] \<Rightarrow> False | c # _ \<Rightarrow> c = CHR ''/'')"

definition endswith_sep :: "string \<Rightarrow> bool" where
  "endswith_sep p = (p \<noteq> [] \<and> last p = CHR ''/'')"

text \<open>One round of the loop of \<open>posixpath.join\<close>.\<close>

definition join2 :: "string \<Rightarrow> string \<Rightarrow> string" where
  "join2 path b =
     (if startswith_sep b \<or> path = [] then b
      else if endswith_sep path then path @ b
      else path @ ''/'' @ b)"

definition os_path_join :: "string \<Rightarrow> string list \<Rightarrow> string" where
  "os_path_join a p = foldl join2 a p"

definition rstrip_sep :: "string \<Rightarrow> string" where
  "rstrip_sep s = rev (dropWhile (\<lambda>c. c = CHR ''/'') (rev s))"

text \<open>\<open>posixpath.dirname\<close>.\<close>

definition dirname :: "string \<Rightarrow> string" where
  "dirname p =
     (let head = rev (dropWhile (\<lambda>c. c \<noteq> CHR ''/'') (rev p))
      in if head \<noteq> [] \<and> (\<exists>c \<in> set head. c \<noteq> CHR ''/'') then rstrip_sep head else head)"

text \<open>The directory levels of a path, shortest first: \<open>a/b/c\<close> has the levels
  \<open>a\<close>, \<open>a/b\<close> and \<open>a/b/c\<close>.\<close>

fun dir_levels :: "string \<Rightarrow> string \<Rightarrow> string list" where
  "dir_levels acc [] = (if acc = [] \<or> endswith_sep acc then [] else [acc])"
| "dir_levels acc (c # cs) =
     (if c = CHR ''/'' \<and> acc \<noteq> [] \<and> \<not> endswith_sep acc
      then acc # dir_levels (acc @ [c]) cs
      else dir_levels (acc @ [c]) cs)"

section \<open>Identity hasher\<close>

text \<open>crawler.py 40-43: the f-string reads \<open>title\<close> first, then \<open>brief\<close>.\<close>

definition get_content_hash :: "env \<Rightarrow> news_item \<Rightarrow> py_error + string" where
  "get_content_hash e news_item =
     (case getitem news_item ''title'' of
        Inl err \<Rightarrow> Inl err
      | Inr t \<Rightarrow>
          (case getitem news_item ''brief'' of
             Inl err \<Rightarrow> Inl err
           | Inr b \<Rightarrow> Inr (md5_hexdigest e (t @ b))))"

section \<open>Content file store\<close>

text \<open>\<open>strftime\<close> for the directives \<open>%Y\<close>, \<open>%m\<close> and \<open>%d\<close>, on the
  years 1..9999 of a \<open>datetime\<close>: the month and the day have two digits,
  zero-padded; the year is not padded (the C library prints the year 99 as \<open>99\<close>).\<close>

definition digit :: "nat \<Rightarrow> char" where
  "digit n = ''0123456789'' ! (n mod 10)"

definition strftime_Y :: "datetime \<Rightarrow> string" where
  "strftime_Y dt =
     (let y = dt_year dt in
      if y < 10 then [digit y]
      else if y < 100 then [digit (y div 10), digit y]
      else if y < 1000 then [digit (y div 100), digit (y div 10), digit y]
      else [digit (y div 1000), digit (y div 100), digit (y div 10), digit y])"

definition strftime_m :: "datetime \<Rightarrow> string" where
  "strftime_m dt = [digit (dt_month dt div 10), digit (dt_month dt)]"

definition strftime_d :: "datetime \<Rightarrow> string" where
  "strftime_d dt = [digit (dt_day dt div 10), digit (dt_day dt)]"

text \<open>\<open>datetime.strptime(publish_time, '%Y-%m-%d %H:%M:%S')\<close>: \<open>TypeError\<close> for
  \<open>None\<close>, \<open>ValueError\<close> for a string that does not parse.\<close>

definition py_strptime :: "env \<Rightarrow> string option \<Rightarrow> py_error + datetime" where
  "py_strptime e publish_time' =
     (case publish_time' of
        None \<Rightarrow> Inl TypeError
      | Some s \<Rightarrow> (case strptime e s of None \<Rightarrow> Inl ValueError | Some dt \<Rightarrow> Inr dt))"

text \<open>\<open>os.makedirs(dir_path, exist_ok=True)\<close> creates the levels of the path
  from the top: every level exists afterwards, or it raises \<open>OSError\<close> and the
  leading levels it reached stay.\<close>

definition left_behind :: "world \<Rightarrow> string \<Rightarrow> string set" where
  "left_behind w dir_path =
     set (take (makedirs_partial w dir_path) (butlast (dir_levels [] dir_path)))"

definition makedirs :: "world \<Rightarrow> state \<Rightarrow> string \<Rightarrow> py_error \<times> state + state" where
  "makedirs w st dir_path =
     (if makedirs_raises w dir_path
      then Inl (OSError, st\<lparr>dirs := dirs st \<union> left_behind w dir_path\<rparr>)
      else Inr (st\<lparr>dirs := dirs st \<union> set (dir_levels [] dir_path)\<rparr>))"

text \<open>A directory exists when it was created, or is the current directory or the
  root.\<close>

definition dir_exists :: "state \<Rightarrow> string \<Rightarrow> bool" where
  "dir_exists st d = (d \<in> dirs st \<or> list_all (\<lambda>c. c = CHR ''/'') d)"

text \<open>crawler.py 123-132 and, with the same text, 137-144: the partition of a date,
  its directory created, and the relative path of the content file.\<close>

definition partition_path ::
  "env \<Rightarrow> world \<Rightarrow> state \<Rightarrow> string \<Rightarrow> datetime
     \<Rightarrow> py_error \<times> state + state \<times> string" where
  "partition_path e w st content_hash dt =
     (let year = strftime_Y dt; month = strftime_m dt; day = strftime_d dt;
          dir_path = os_path_join (content_base_dir e) [year, month, day]
      in case makedirs w st dir_path of
           Inl err \<Rightarrow> Inl err
         | Inr st' \<Rightarrow> Inr (st', os_path_join year [month, day, content_hash @ ''.txt'']))"

text \<open>crawler.py 118-144. The bare \<open>except\<close> catches whatever the \<open>try\<close> block
  raises, and the handler starts from the file system the \<open>try\<close> block left;
  nothing catches what the handler itself raises.\<close>

definition get_content_file_path ::
  "env \<Rightarrow> world \<Rightarrow> state \<Rightarrow> string \<Rightarrow> string option \<Rightarrow> py_error \<times> state + state \<times> string" where
  "get_content_file_path e w st content_hash publish_time' =
     (case (case py_strptime e publish_time' of
              Inl err \<Rightarrow> Inl (err, st)
            | Inr dt \<Rightarrow> partition_path e w st content_hash dt) of
        Inr r \<Rightarrow> Inr r
      | Inl (_, st1) \<Rightarrow> partition_path e w st1 content_hash (now w))"

text \<open>crawler.py 146-159. \<open>open\<close> raises when the directory of the path does not
  exist.\<close>

definition save_detailed_content ::
  "env \<Rightarrow> world \<Rightarrow> state \<Rightarrow> string \<Rightarrow> string option \<Rightarrow> state \<times> bool" where
  "save_detailed_content e w st file_path detailed_content =
     (case detailed_content of
        None \<Rightarrow> (st, False)
      | Some text \<Rightarrow>
          if text = [] then (st, False)
          else
            let full_path = os_path_join (content_base_dir e) [file_path] in
            if \<not> dir_exists st (dirname full_path)
            then (st\<lparr>trace := trace st @ [Print_write_failed]\<rparr>, False)
            else
              (case file_io w full_path of
                 Written \<Rightarrow> (st\<lparr>files := (files st)(full_path \<mapsto> text)\<rparr>, True)
               | Open_error \<Rightarrow> (st\<lparr>trace := trace st @ [Print_write_failed]\<rparr>, False)
               | Write_error part \<Rightarrow>
                   (st\<lparr>files := (files st)(full_path \<mapsto> part),
                       trace := trace st @ [Print_write_failed]\<rparr>, False)))"

section \<open>Ingestion pipeline\<close>

text \<open>crawler.py 82-116, seen from the caller: one request, and the text or
  \<open>None\<close>.\<close>

definition fetch_detailed_content :: "world \<Rightarrow> state \<Rightarrow> string \<Rightarrow> state \<times> string option" where
  "fetch_detailed_content w st url = (st\<lparr>trace := trace st @ [Http_get url]\<rparr>, detail_page w url)"

text \<open>\<open>not existing or not existing[0]\<close>, for the row \<open>existing\<close> that
  \<open>fetchone\<close> returns: \<open>None\<close>, or the one-tuple of the stored path.\<close>

definition needs_detail :: "string option option \<Rightarrow> bool" where
  "needs_detail existing = (case existing of None \<Rightarrow> True | Some p \<Rightarrow> \<not> truthy p)"

text \<open>crawler.py 176-188: the value of \<open>content_file_path\<close> before the \<open>try\<close>
  block.\<close>

definition detail_phase ::
  "env \<Rightarrow> bool \<Rightarrow> news_item \<Rightarrow> world \<Rightarrow> state \<Rightarrow> string \<Rightarrow> string option option
     \<Rightarrow> py_error \<times> state + state \<times> string option" where
  "detail_phase e fetch_detailed news_item w st content_hash existing =
     (if fetch_detailed \<and> needs_detail existing then
        (case getitem news_item ''title'' of
           Inl err \<Rightarrow> Inl (err, st)
         | Inr t \<Rightarrow>
             let st1 = st\<lparr>trace := trace st @ [Print_fetching (take 30 t)]\<rparr> in
             (case getitem news_item ''url'' of
                Inl err \<Rightarrow> Inl (err, st1)
              | Inr url \<Rightarrow>
                  (case fetch_detailed_content w st1 url of
                     (st2, detailed_content) \<Rightarrow>
                       if truthy detailed_content then
                         (case getitem news_item ''focus_date'' of
                            Inl err \<Rightarrow> Inl (err, st2)
                          | Inr focus_date \<Rightarrow>
                              (case get_content_file_path e w st2 content_hash (Some focus_date) of
                                 Inl err \<Rightarrow> Inl err
                               | Inr (st3, path) \<Rightarrow>
                                   (case save_detailed_content e w st3 path detailed_content of
                                      (st4, ok) \<Rightarrow>
                                        Inr (st4\<lparr>trace := trace st4 @ [Sleep]\<rparr>,
                                             if ok then Some path else None))))
                       else Inr (st2\<lparr>trace := trace st2 @ [Sleep]\<rparr>, None))))
      else
        (case existing of
           Some p \<Rightarrow> Inr (st, p)
         | None \<Rightarrow> Inr (st, None)))"

datatype tally = Counted_new | Counted_duplicate

text \<open>crawler.py 194-198: the UPDATE of the row with that key.\<close>

definition sql_update :: "news_table \<Rightarrow> string \<Rightarrow> string option \<Rightarrow> string \<Rightarrow> news_table" where
  "sql_update tbl content_hash path ts =
     (case tbl content_hash of
        None \<Rightarrow> tbl
      | Some r \<Rightarrow> tbl(content_hash \<mapsto> r\<lparr>crawl_time := ts, content_file_path := path\<rparr>))"

text \<open>crawler.py 204-215: the INSERT; the primary key refuses a second row.\<close>

definition sql_insert :: "news_table \<Rightarrow> string \<Rightarrow> news_row \<Rightarrow> py_error + news_table" where
  "sql_insert tbl content_hash r =
     (if tbl content_hash \<noteq> None then Inl IntegrityError else Inr (tbl(content_hash \<mapsto> r)))"

text \<open>
  A \<open>c.execute\<close> that raises \<open>sqlite3.OperationalError\<close>, and the table the
  connection sees afterwards: SQLite either aborts the statement only, or rolls the
  whole open transaction back to \<open>committed\<close>, the table of the last commit.
\<close>

definition failed_execute :: "world \<Rightarrow> news_table \<Rightarrow> news_table \<Rightarrow> py_error \<times> news_table" where
  "failed_execute w committed tbl = (OperationalError, if rolls_back w then committed else tbl)"

text \<open>crawler.py 191-216, the body of the \<open>try\<close> block: the exception it raises
  and the table it leaves, or the table afterwards and the counter to increment.\<close>

definition persist ::
  "news_item \<Rightarrow> world \<Rightarrow> news_table \<Rightarrow> string \<Rightarrow> string option option \<Rightarrow> string option
     \<Rightarrow> news_table \<Rightarrow> py_error \<times> news_table + news_table \<times> tally" where
  "persist news_item w committed content_hash existing path tbl =
     (case existing of
        Some old \<Rightarrow>
          if truthy path \<and> \<not> truthy old then
            (if execute_raises w then Inl (failed_execute w committed tbl)
             else Inr (sql_update tbl content_hash path (current_timestamp w), Counted_new))
          else Inr (tbl, Counted_duplicate)
      | None \<Rightarrow>
          (case getitem news_item ''title'' of
             Inl err \<Rightarrow> Inl (err, tbl)
           | Inr t \<Rightarrow>
               (case getitem news_item ''brief'' of
                  Inl err \<Rightarrow> Inl (err, tbl)
                | Inr b \<Rightarrow>
                    (case getitem news_item ''focus_date'' of
                       Inl err \<Rightarrow> Inl (err, tbl)
                     | Inr focus_date \<Rightarrow>
                         if execute_raises w then Inl (failed_execute w committed tbl)
                         else
                           (case sql_insert tbl content_hash
                                   \<lparr>title = t, summary = b, publish_time = focus_date,
                                    keywords_col = (case news_item ''keywords'' of None \<Rightarrow> [] | Some k \<Rightarrow> k),
                                    crawl_time = current_timestamp w,
                                    content_file_path = path\<rparr> of
                              Inl err \<Rightarrow> Inl (err, tbl)
                            | Inr tbl' \<Rightarrow> Inr (tbl', Counted_new))))))"

text \<open>crawler.py 169-219: one round of the loop, on the state and the two counters;
  \<open>committed\<close> is the table of the last commit. An exception of the \<open>try\<close> block
  is caught and printed; any other exception leaves the function.\<close>

definition process_item ::
  "env \<Rightarrow> bool \<Rightarrow> news_table \<Rightarrow> news_item \<times> world \<Rightarrow> state \<times> nat \<times> nat
     \<Rightarrow> py_error \<times> state + state \<times> nat \<times> nat" where
  "process_item e fetch_detailed committed x s =
     (case x of (news_item, w) \<Rightarrow>
      case s of (st, new_count, duplicate_count) \<Rightarrow>
        (case get_content_hash e news_item of
           Inl err \<Rightarrow> Inl (err, st)
         | Inr content_hash \<Rightarrow>
             let existing = map_option content_file_path (db st content_hash) in
             (case detail_phase e fetch_detailed news_item w st content_hash existing of
                Inl err \<Rightarrow> Inl err
              | Inr (st1, path) \<Rightarrow>
                  (case persist news_item w committed content_hash existing path (db st1) of
                     Inr (tbl, Counted_new) \<Rightarrow>
                       Inr (st1\<lparr>db := tbl\<rparr>, new_count + 1, duplicate_count)
                   | Inr (tbl, Counted_duplicate) \<Rightarrow>
                       Inr (st1\<lparr>db := tbl\<rparr>, new_count, duplicate_count + 1)
                   | Inl (err, tbl) \<Rightarrow>
                       (case getitem news_item ''title'' of
                          Inl err' \<Rightarrow> Inl (err', st1\<lparr>db := tbl\<rparr>)
                        | Inr t \<Rightarrow>
                            Inr (st1\<lparr>db := tbl,
                                     trace := trace st1 @ [Print_save_failed t err]\<rparr>,
                                 new_count, duplicate_count))))))"

fun process_all ::
  "env \<Rightarrow> bool \<Rightarrow> news_table \<Rightarrow> (news_item \<times> world) list \<Rightarrow> state \<times> nat \<times> nat
     \<Rightarrow> py_error \<times> state + state \<times> nat \<times> nat" where
  "process_all e fetch_detailed committed [] s = Inr s"
| "process_all e fetch_detailed committed (x # xs) s =
     (case process_item e fetch_detailed committed x s of
        Inl err \<Rightarrow> Inl err
      | Inr s' \<Rightarrow> process_all e fetch_detailed committed xs s')"

text \<open>
  crawler.py 161-224. Each item of \<open>news_list\<close> comes with what the outside world
  does during its round. The table is written inside a transaction that is committed
  at the end, so the table of the last commit is the one the run starts from: an
  exception that leaves the function leaves the table as it was, while files,
  directories and output stay.
\<close>

definition save_news_to_db ::
  "env \<Rightarrow> state \<Rightarrow> (news_item \<times> world) list \<Rightarrow> bool \<Rightarrow> py_error \<times> state + state \<times> nat \<times> nat" where
  "save_news_to_db e st news_list fetch_detailed =
     (case process_all e fetch_detailed (db st) news_list (st, 0, 0) of
        Inl (err, st') \<Rightarrow> Inl (err, st'\<lparr>db := db st\<rparr>)
      | Inr r \<Rightarrow> Inr r)"

section \<open>Notions used in the statements\<close>

text \<open>The partition \<open>{year}/{month}/{day}\<close> of a date.\<close>

definition date_partition :: "datetime \<Rightarrow> string" where
  "date_partition dt = strftime_Y dt @ ''/'' @ strftime_m dt @ ''/'' @ strftime_d dt"

text \<open>The directory \<open>os.path.join(self.content_base_dir, year, month, day)\<close> of
  crawler.py 128 and 141.\<close>

definition partition_dir :: "env \<Rightarrow> datetime \<Rightarrow> string" where
  "partition_dir e dt =
     os_path_join (content_base_dir e) [strftime_Y dt, strftime_m dt, strftime_d dt]"

definition base_year :: "env \<Rightarrow> datetime \<Rightarrow> string" where
  "base_year e dt = join2 (content_base_dir e) (strftime_Y dt)"

text \<open>The path stored for an identity: \<open>None\<close> when there is no row, or the row
  has no path.\<close>

definition stored_path :: "state \<Rightarrow> string \<Rightarrow> string option" where
  "stored_path st h = (case db st h of None \<Rightarrow> None | Some r \<Rightarrow> content_file_path r)"

text \<open>No stored path is the empty string.\<close>

definition paths_nonempty :: "news_table \<Rightarrow> bool" where
  "paths_nonempty tbl = (\<forall>h r. tbl h = Some r \<longrightarrow> content_file_path r \<noteq> Some [])"

text \<open>
  The states the pipeline can be in: \<open>init_database\<close> creates an empty table, each
  round of the loop of \<open>save_news_to_db\<close> is a step (in a run that started from the
  table of a state the pipeline can be in), and whatever happens to files and output
  (also when an exception rolls the table back) leaves the table alone.
\<close>

inductive reachable :: "env \<Rightarrow> state \<Rightarrow> bool" for e :: env where
  fresh: "db st = Map.empty \<Longrightarrow> reachable e st"
| step: "reachable e st0 \<Longrightarrow> reachable e st
           \<Longrightarrow> process_item e fetch_detailed (db st0) x (st, n, d) = Inr (st', n', d')
           \<Longrightarrow> reachable e st'"
| same_table: "reachable e st \<Longrightarrow> db st' = db st \<Longrightarrow> reachable e st'"

text \<open>The \<open>try\<close> block of crawler.py 190-216 raises for this item in this state.\<close>

definition persist_raises ::
  "env \<Rightarrow> bool \<Rightarrow> news_table \<Rightarrow> news_item \<times> world \<Rightarrow> state \<Rightarrow> bool" where
  "persist_raises e fetch_detailed committed x st =
     (case get_content_hash e (fst x) of
        Inl _ \<Rightarrow> False
      | Inr content_hash \<Rightarrow>
          let existing = map_option content_file_path (db st content_hash) in
          (case detail_phase e fetch_detailed (fst x) (snd x) st content_hash existing of
             Inl _ \<Rightarrow> False
           | Inr (st1, path) \<Rightarrow>
               (case persist (fst x) (snd x) committed content_hash existing path (db st1) of
                  Inl _ \<Rightarrow> True
                | Inr _ \<Rightarrow> False)))"

section \<open>Sample inputs\<close>

definition sample_env :: env where
  "sample_env =
     \<lparr>content_base_dir = ''news'',
      md5_hexdigest = (\<lambda>s. ''id-'' @ s),
      strptime = (\<lambda>s. if s = ''2024-01-01 10:00:00''
                        then Some \<lparr>dt_year = 2024, dt_month = 1, dt_day = 1,
                                   dt_hour = 10, dt_minute = 0, dt_second = 0\<rparr>
                        else None)\<rparr>"

definition sample_world :: world where
  "sample_world =
     \<lparr>detail_page = (\<lambda>url. Some ''Paragraph one.''),
      now = \<lparr>dt_year = 2026, dt_month = 11, dt_day = 3,
              dt_hour = 8, dt_minute = 30, dt_second = 0\<rparr>,
      makedirs_raises = (\<lambda>d. False),
      makedirs_partial = (\<lambda>d. 0),
      file_io = (\<lambda>p. Written),
      execute_raises = False,
      rolls_back = False,
      current_timestamp = ''2026-11-03 08:30:00''\<rparr>"

definition empty_state :: state where
  "empty_state = \<lparr>db = Map.empty, dirs = {}, files = Map.empty, trace = []\<rparr>"

text \<open>The item of the scenario of the specification.\<close>

definition scenario_item :: news_item where
  "scenario_item =
     [''title'' \<mapsto> ''A'', ''brief'' \<mapsto> ''B'',
      ''focus_date'' \<mapsto> ''2024-01-01 10:00:00'', ''url'' \<mapsto> ''http://x/1'']"

text \<open>The state after the scenario item was processed with \<open>fetch_detailed\<close> set,
  from \<open>empty_state\<close> in \<open>sample_world\<close>.\<close>

definition fetched_state :: state where
  "fetched_state =
     \<lparr>db = [''id-AB'' \<mapsto>
             \<lparr>title = ''A'', summary = ''B'', publish_time = ''2024-01-01 10:00:00'',
              keywords_col = [], crawl_time = ''2026-11-03 08:30:00'',
              content_file_path = Some ''2024/01/01/id-AB.txt''\<rparr>],
      dirs = {''news'', ''news/2024'', ''news/2024/01'', ''news/2024/01/01''},
      files = [''news/2024/01/01/id-AB.txt'' \<mapsto> ''Paragraph one.''],
      trace = [Print_fetching ''A'', Http_get ''http://x/1'', Sleep]\<rparr>"

text \<open>A world in which no directory can be created.\<close>

definition readonly_world :: world where
  "readonly_world = sample_world\<lparr>makedirs_raises := (\<lambda>d. True)\<rparr>"

text \<open>Worlds in which the detail fetcher finds nothing, no file can be opened for
  writing, and the data base refuses every INSERT and UPDATE with the disk full,
  which rolls the open transaction back.\<close>

definition offline_world :: world where
  "offline_world = sample_world\<lparr>detail_page := (\<lambda>url. None)\<rparr>"

definition full_disk_world :: world where
  "full_disk_world = sample_world\<lparr>file_io := (\<lambda>p. Open_error)\<rparr>"

definition rollback_world :: world where
  "rollback_world = sample_world\<lparr>execute_raises := True, rolls_back := True\<rparr>"

text \<open>The state in which the detail fetcher has just been called for an item with
  title \<open>t\<close> (crawler.py 180-181).\<close>

definition after_fetch :: "state \<Rightarrow> string \<Rightarrow> string \<Rightarrow> state" where
  "after_fetch st t url = st\<lparr>trace := trace st @ [Print_fetching (take 30 t), Http_get url]\<rparr>"


text \<open>A second item.\<close>

definition other_item :: news_item where
  "other_item =
     [''title'' \<mapsto> ''C'', ''brief'' \<mapsto> ''D'',
      ''focus_date'' \<mapsto> ''2024-01-01 10:00:00'', ''url'' \<mapsto> ''http://x/2'']"

section \<open>Identity hasher: properties\<close>

lemma get_content_hash_eq:
  "news_item ''title'' = Some t \<Longrightarrow> news_item ''brief'' = Some b
     \<Longrightarrow> get_content_hash e news_item = Inr (md5_hexdigest e (t @ b))"
  by (simp add: get_content_hash_def getitem_def)

text \<open>
  C6. The identity of an item is the digest \<open>md5_hexdigest\<close> of its title followed
  directly by its brief, with no separator; it depends on nothing else (no state and
  no outside world enter \<open>get_content_hash\<close>). Hence two items whose concatenations
  of title and brief are equal receive the same identity, whatever their other
  fields are.
\<close>

theorem identity_is_digest_of_title_brief:
  assumes "a ''title'' = Some t1" and "a ''brief'' = Some b1"
    and "b ''title'' = Some t2" and "b ''brief'' = Some b2"
    and "t1 @ b1 = t2 @ b2"
  shows "get_content_hash e a = Inr (md5_hexdigest e (t1 @ b1))
       \<and> get_content_hash e b = get_content_hash e a"
  using assms by (simp add: get_content_hash_def getitem_def)

theorem identity_is_digest_of_title_brief_witness:
  "get_content_hash sample_env scenario_item = Inr ''id-AB''
   \<and> get_content_hash sample_env
        [''title'' \<mapsto> ''AB'', ''brief'' \<mapsto> [], ''url'' \<mapsto> ''http://y/2'']
      = get_content_hash sample_env scenario_item"
  using identity_is_digest_of_title_brief
    [of scenario_item "''A''" "''B''"
        "[''title'' \<mapsto> ''AB'', ''brief'' \<mapsto> [], ''url'' \<mapsto> ''http://y/2'']"
        "''AB''" "[]" sample_env]
  by (simp add: scenario_item_def sample_env_def)

section \<open>Paths: lemmas\<close>

lemma digit_cases: "digit n \<in> set ''0123456789''"
proof -
  have "n mod 10 < length ''0123456789''" by simp
  then show ?thesis unfolding digit_def by (rule nth_mem)
qed

lemma digit_not_sep: "digit n \<noteq> CHR ''/''" "CHR ''/'' \<noteq> digit n"
  using digit_cases [of n] by auto

lemma startswith_sep_simps:
  "startswith_sep [] = False" "startswith_sep (c # cs) = (c = CHR ''/'')"
  by (simp_all add: startswith_sep_def)

lemma endswith_sep_snoc: "endswith_sep (xs @ [c]) = (c = CHR ''/'')"
  by (simp add: endswith_sep_def)

lemma join2_nonempty: "b \<noteq> [] \<Longrightarrow> join2 p b \<noteq> []"
  by (simp add: join2_def)

lemma join2_suffix: "\<exists>q. join2 p b = q @ b"
  by (auto simp: join2_def intro: exI [of _ "[]"])

lemma strftime_Y_no_sep: "CHR ''/'' \<notin> set (strftime_Y dt)" "strftime_Y dt \<noteq> []"
  by (simp_all add: strftime_Y_def Let_def digit_not_sep)

lemma strftime_m_no_sep: "CHR ''/'' \<notin> set (strftime_m dt)" "length (strftime_m dt) = 2"
  by (simp_all add: strftime_m_def digit_not_sep)

lemma strftime_d_no_sep: "CHR ''/'' \<notin> set (strftime_d dt)" "length (strftime_d dt) = 2"
  by (simp_all add: strftime_d_def digit_not_sep)

text \<open>Joining onto a path that is a non-empty word without trailing separator.\<close>

lemma join2_plain:
  assumes "p \<noteq> []" "last p \<noteq> CHR ''/''" "\<not> startswith_sep b"
  shows "join2 p b = p @ ''/'' @ b"
  using assms by (simp add: join2_def endswith_sep_def)

lemma word_facts:
  assumes "CHR ''/'' \<notin> set s" "s \<noteq> []"
  shows "\<not> startswith_sep s" "last s \<noteq> CHR ''/''"
  using assms by (cases s, auto simp: startswith_sep_def) (metis last_in_set)

lemma nonempty_Y: "strftime_Y dt \<noteq> []"
  by (simp add: strftime_Y_def Let_def)

lemma nonempty_m: "strftime_m dt \<noteq> []"
  by (simp add: strftime_m_def)

lemma nonempty_d: "strftime_d dt \<noteq> []"
  by (simp add: strftime_d_def)

lemma relative_path_eq:
  assumes "\<not> startswith_sep content_hash"
  shows "os_path_join (strftime_Y dt) [strftime_m dt, strftime_d dt, content_hash @ ''.txt'']
         = date_partition dt @ ''/'' @ content_hash @ ''.txt''"
proof -
  have 1: "join2 (strftime_Y dt) (strftime_m dt) = strftime_Y dt @ ''/'' @ strftime_m dt"
    by (intro join2_plain word_facts strftime_Y_no_sep strftime_m_no_sep nonempty_Y nonempty_m)
  have 2: "join2 (strftime_Y dt @ ''/'' @ strftime_m dt) (strftime_d dt) = date_partition dt"
    unfolding date_partition_def
    using word_facts [OF strftime_d_no_sep(1) nonempty_d, of dt] word_facts [OF strftime_m_no_sep(1) nonempty_m, of dt]
    by (simp add: join2_def endswith_sep_def nonempty_m)
  have 3: "join2 (date_partition dt) (content_hash @ ''.txt'') = date_partition dt @ ''/'' @ content_hash @ ''.txt''"
    using assms word_facts [OF strftime_d_no_sep(1) nonempty_d, of dt]
    by (cases content_hash) (simp_all add: join2_def endswith_sep_def date_partition_def nonempty_d startswith_sep_def)
  show ?thesis unfolding os_path_join_def by (simp only: foldl.simps 1 2 3)
qed

lemma dirname_leaf:
  assumes "X \<noteq> []" "last X \<noteq> CHR ''/''" "CHR ''/'' \<notin> set leaf"
  shows "dirname (X @ ''/'' @ leaf) = X"
proof -
  have "dropWhile (\<lambda>c. c \<noteq> CHR ''/'') (rev leaf) = []"
    using assms(3) by (auto simp: dropWhile_eq_Nil_conv)
  then have "dropWhile (\<lambda>c. c \<noteq> CHR ''/'') (rev leaf @ CHR ''/'' # rev X) = CHR ''/'' # rev X"
    by (simp add: dropWhile_append3)
  then have head: "rev (dropWhile (\<lambda>c. c \<noteq> CHR ''/'') (rev (X @ ''/'' @ leaf))) = X @ ''/''"
    by simp
  have "last X \<in> set (X @ ''/'')" using assms(1) by simp
  then have cond: "X @ ''/'' \<noteq> [] \<and> (\<exists>c \<in> set (X @ ''/''). c \<noteq> CHR ''/'')"
    using assms(2) by blast
  have "hd (rev X) \<noteq> CHR ''/''" using assms(1,2) by (simp add: hd_rev)
  moreover have "rev X \<noteq> []" using assms(1) by simp
  ultimately have "dropWhile (\<lambda>c. c = CHR ''/'') (rev X) = rev X"
    by (cases "rev X") simp_all
  then have strip: "rstrip_sep (X @ ''/'') = X" by (simp add: rstrip_sep_def)
  show ?thesis unfolding dirname_def Let_def head using cond strip by simp
qed

lemma dir_levels_last:
  "acc @ cs \<noteq> [] \<Longrightarrow> \<not> endswith_sep (acc @ cs) \<Longrightarrow> acc @ cs \<in> set (dir_levels acc cs)"
proof (induction cs arbitrary: acc)
  case Nil
  then show ?case by simp
next
  case (Cons c cs)
  have "(acc @ [c]) @ cs \<in> set (dir_levels (acc @ [c]) cs)"
    using Cons.prems by (intro Cons.IH) simp_all
  then have *: "acc @ c # cs \<in> set (dir_levels (acc @ [c]) cs)" by simp
  have "dir_levels acc (c # cs) = acc # dir_levels (acc @ [c]) cs
      \<or> dir_levels acc (c # cs) = dir_levels (acc @ [c]) cs"
    by (simp only: dir_levels.simps split: if_split) blast
  with * show ?case by (elim disjE) simp_all
qed

lemma base_year_facts: "base_year e dt \<noteq> []" "last (base_year e dt) \<noteq> CHR ''/''"
  using word_facts [OF strftime_Y_no_sep(1) nonempty_Y, of dt]
  by (auto simp: base_year_def join2_def nonempty_Y)

lemma partition_dir_eq:
  "partition_dir e dt = base_year e dt @ ''/'' @ strftime_m dt @ ''/'' @ strftime_d dt"
proof -
  have 1: "join2 (base_year e dt) (strftime_m dt) = base_year e dt @ ''/'' @ strftime_m dt"
    by (intro join2_plain base_year_facts word_facts strftime_m_no_sep nonempty_m)
  have 2: "join2 (base_year e dt @ ''/'' @ strftime_m dt) (strftime_d dt)
           = (base_year e dt @ ''/'' @ strftime_m dt) @ ''/'' @ strftime_d dt"
  proof (rule join2_plain)
    show "base_year e dt @ ''/'' @ strftime_m dt \<noteq> []" by simp
    have "last (base_year e dt @ ''/'' @ strftime_m dt) = last (strftime_m dt)"
      by (simp add: nonempty_m)
    then show "last (base_year e dt @ ''/'' @ strftime_m dt) \<noteq> CHR ''/''"
      using word_facts(2) [OF strftime_m_no_sep(1) nonempty_m, of dt] by simp
    show "\<not> startswith_sep (strftime_d dt)"
      by (rule word_facts(1) [OF strftime_d_no_sep(1) nonempty_d])
  qed
  have "partition_dir e dt = join2 (join2 (base_year e dt) (strftime_m dt)) (strftime_d dt)"
    by (simp add: partition_dir_def os_path_join_def base_year_def)
  also have "\<dots> = (base_year e dt @ ''/'' @ strftime_m dt) @ ''/'' @ strftime_d dt"
    by (simp only: 1 2)
  finally show ?thesis by simp
qed

lemma partition_dir_facts:
  "partition_dir e dt \<noteq> []" "last (partition_dir e dt) \<noteq> CHR ''/''"
  using word_facts(2) [OF strftime_d_no_sep(1) nonempty_d, of dt]
  by (simp_all add: partition_dir_eq nonempty_d)

lemma full_path_eq:
  "join2 (content_base_dir e) (date_partition dt @ ''/'' @ leaf) = partition_dir e dt @ ''/'' @ leaf"
proof -
  obtain y ys where Y: "strftime_Y dt = y # ys"
    using nonempty_Y [of dt] by (cases "strftime_Y dt") auto
  have "y \<noteq> CHR ''/''" using strftime_Y_no_sep(1) [of dt] Y by auto
  note Y = Y this
  have "join2 (content_base_dir e) (date_partition dt @ ''/'' @ leaf)
        = join2 (content_base_dir e) (strftime_Y dt) @ ''/'' @ strftime_m dt @ ''/'' @ strftime_d dt @ ''/'' @ leaf"
    using Y by (simp add: join2_def date_partition_def startswith_sep_def)
  then show ?thesis by (simp add: partition_dir_eq base_year_def)
qed

section \<open>Ingestion pipeline: one round\<close>

lemma detail_phase_skip:
  "\<not> (fd \<and> needs_detail existing) \<Longrightarrow>
   detail_phase e fd item w st h existing = Inr (st, case existing of None \<Rightarrow> None | Some p \<Rightarrow> p)"
  by (cases existing) (auto simp: detail_phase_def)

lemma persist_duplicate:
  "\<not> (truthy path \<and> \<not> truthy old) \<Longrightarrow>
   persist item w committed h (Some old) path tbl = Inr (tbl, Counted_duplicate)"
  by (auto simp: persist_def)

lemma persist_insert:
  assumes "item ''title'' = Some t" and "item ''brief'' = Some b"
    and "item ''focus_date'' = Some f" and "\<not> execute_raises w" and "tbl h = None"
  shows "persist item w committed h None path tbl =
         Inr (tbl(h \<mapsto> \<lparr>title = t, summary = b, publish_time = f,
                          keywords_col = (case item ''keywords'' of None \<Rightarrow> [] | Some k \<Rightarrow> k),
                          crawl_time = current_timestamp w, content_file_path = path\<rparr>),
              Counted_new)"
  using assms by (simp add: persist_def getitem_def sql_insert_def)

lemma process_item_duplicate:
  assumes "get_content_hash e item = Inr h" and "db st h = Some r"
    and "fd \<longrightarrow> truthy (content_file_path r)"
  shows "process_item e fd committed (item, w) (st, n, d) = Inr (st, n, Suc d)"
proof -
  let ?ex = "Some (content_file_path r)"
  have skip: "\<not> (fd \<and> needs_detail ?ex)" using assms(3) by (simp add: needs_detail_def)
  have 1: "detail_phase e fd item w st h ?ex = Inr (st, content_file_path r)"
    using detail_phase_skip [OF skip] by simp
  have 2: "persist item w committed h ?ex (content_file_path r) (db st) = Inr (db st, Counted_duplicate)"
    by (rule persist_duplicate) simp
  show ?thesis using assms(1,2) by (simp add: process_item_def 1 2)
qed

lemma process_item_insert:
  assumes "item ''title'' = Some t" and "item ''brief'' = Some b"
    and "item ''focus_date'' = Some f" and "\<not> execute_raises w"
    and "db st (md5_hexdigest e (t @ b)) = None"
    and "detail_phase e fd item w st (md5_hexdigest e (t @ b)) None = Inr (st1, path)"
    and "db st1 = db st"
  shows "process_item e fd committed (item, w) (st, n, d) =
         Inr (st1\<lparr>db := (db st)(md5_hexdigest e (t @ b) \<mapsto>
                 \<lparr>title = t, summary = b, publish_time = f,
                  keywords_col = (case item ''keywords'' of None \<Rightarrow> [] | Some k \<Rightarrow> k),
                  crawl_time = current_timestamp w, content_file_path = path\<rparr>)\<rparr>, Suc n, d)"
proof -
  have h: "get_content_hash e item = Inr (md5_hexdigest e (t @ b))"
    using assms(1,2) by (simp add: get_content_hash_def getitem_def)
  have p: "persist item w committed (md5_hexdigest e (t @ b)) None path (db st1) =
         Inr ((db st)(md5_hexdigest e (t @ b) \<mapsto> \<lparr>title = t, summary = b, publish_time = f,
                          keywords_col = (case item ''keywords'' of None \<Rightarrow> [] | Some k \<Rightarrow> k),
                          crawl_time = current_timestamp w, content_file_path = path\<rparr>),
              Counted_new)"
    using persist_insert [OF assms(1,2,3,4), where tbl = "db st1"
        and h = "md5_hexdigest e (t @ b)" and path = path and committed = committed] assms(5,7)
    by simp
  show ?thesis using assms(5,6) by (simp add: process_item_def h p)
qed

lemma partition_path_db:
  "partition_path e w st h dt = Inr (st', p) \<Longrightarrow>
   db st' = db st \<and> trace st' = trace st \<and> files st' = files st \<and> dirs st \<subseteq> dirs st'"
  by (auto simp: partition_path_def makedirs_def Let_def split: if_splits)

lemma partition_path_error:
  "partition_path e w st h dt = Inl (err, st') \<Longrightarrow>
   db st' = db st \<and> trace st' = trace st \<and> files st' = files st \<and> dirs st \<subseteq> dirs st'
   \<and> err = OSError"
  by (auto simp: partition_path_def makedirs_def Let_def split: if_splits)

lemma get_content_file_path_frame:
  "get_content_file_path e w st h pt = Inr (st', p) \<Longrightarrow>
   db st' = db st \<and> trace st' = trace st \<and> files st' = files st \<and> dirs st \<subseteq> dirs st'"
  unfolding get_content_file_path_def
  by (auto split: sum.splits dest!: partition_path_db partition_path_error)

lemma get_content_file_path_error:
  "get_content_file_path e w st h pt = Inl (err, st') \<Longrightarrow>
   db st' = db st \<and> trace st' = trace st \<and> files st' = files st \<and> err = OSError"
  unfolding get_content_file_path_def
  by (auto split: sum.splits dest!: partition_path_error)

lemma save_detailed_content_db:
  "save_detailed_content e w st p c = (st', ok) \<Longrightarrow> db st' = db st \<and> dirs st' = dirs st"
  by (auto simp: save_detailed_content_def Let_def split: option.splits if_splits write_outcome.splits)

lemma detail_phase_db:
  assumes "detail_phase e fd item w st h existing = Inr (st1, path)"
  shows "db st1 = db st"
proof (cases "fd \<and> needs_detail existing")
  case False
  with assms show ?thesis by (simp add: detail_phase_skip)
next
  case True
  with assms show ?thesis
    by (auto simp: detail_phase_def fetch_detailed_content_def Let_def
        split: sum.splits if_splits prod.splits
        dest!: get_content_file_path_frame save_detailed_content_db)
qed

lemma detail_phase_error_db:
  assumes "detail_phase e fd item w st h existing = Inl (err, st1)"
  shows "db st1 = db st"
  using assms
  by (auto simp: detail_phase_def fetch_detailed_content_def Let_def
        split: sum.splits if_splits prod.splits option.splits
        dest!: get_content_file_path_error)

lemma save_news_to_db_single:
  "process_item e fd (db st) x (st, 0, 0) = Inr r \<Longrightarrow> save_news_to_db e st [x] fd = Inr r"
  by (simp add: save_news_to_db_def)

lemma scenario_hash: "get_content_hash e scenario_item = Inr (md5_hexdigest e ''AB'')"
  by (simp add: get_content_hash_def getitem_def scenario_item_def)

text \<open>
  C5. The item of the scenario, processed with \<open>fetch_detailed\<close> false against an
  empty table whose INSERT is accepted, gives the counts (1, 0) and a row without
  content file path; processed again, it gives (0, 1) and the state is the same.
\<close>

theorem scenario_twice_without_detail:
  assumes "db st = Map.empty" and "\<not> execute_raises w1"
  shows "save_news_to_db e st [(scenario_item, w1)] False =
           Inr (st\<lparr>db := [md5_hexdigest e ''AB'' \<mapsto>
                  \<lparr>title = ''A'', summary = ''B'', publish_time = ''2024-01-01 10:00:00'',
                   keywords_col = [], crawl_time = current_timestamp w1,
                   content_file_path = None\<rparr>]\<rparr>, 1, 0)
       \<and> save_news_to_db e
            (st\<lparr>db := [md5_hexdigest e ''AB'' \<mapsto>
                  \<lparr>title = ''A'', summary = ''B'', publish_time = ''2024-01-01 10:00:00'',
                   keywords_col = [], crawl_time = current_timestamp w1,
                   content_file_path = None\<rparr>]\<rparr>)
            [(scenario_item, w2)] False =
           Inr (st\<lparr>db := [md5_hexdigest e ''AB'' \<mapsto>
                  \<lparr>title = ''A'', summary = ''B'', publish_time = ''2024-01-01 10:00:00'',
                   keywords_col = [], crawl_time = current_timestamp w1,
                   content_file_path = None\<rparr>]\<rparr>, 0, 1)"
proof
  have d: "detail_phase e False scenario_item w1 st (md5_hexdigest e (''A'' @ ''B'')) None = Inr (st, None)"
    by (simp add: detail_phase_skip)
  have "process_item e False (db st) (scenario_item, w1) (st, 0, 0) =
        Inr (st\<lparr>db := (db st)(md5_hexdigest e (''A'' @ ''B'') \<mapsto>
                 \<lparr>title = ''A'', summary = ''B'', publish_time = ''2024-01-01 10:00:00'',
                  keywords_col = (case scenario_item ''keywords'' of None \<Rightarrow> [] | Some k \<Rightarrow> k),
                  crawl_time = current_timestamp w1, content_file_path = None\<rparr>)\<rparr>, Suc 0, 0)"
    by (rule process_item_insert [OF _ _ _ assms(2) _ d])
       (simp_all add: scenario_item_def assms(1))
  then show "save_news_to_db e st [(scenario_item, w1)] False =
           Inr (st\<lparr>db := [md5_hexdigest e ''AB'' \<mapsto>
                  \<lparr>title = ''A'', summary = ''B'', publish_time = ''2024-01-01 10:00:00'',
                   keywords_col = [], crawl_time = current_timestamp w1,
                   content_file_path = None\<rparr>]\<rparr>, 1, 0)"
    by (simp add: save_news_to_db_def assms(1) scenario_item_def)
next
  let ?st1 = "st\<lparr>db := [md5_hexdigest e ''AB'' \<mapsto>
                  \<lparr>title = ''A'', summary = ''B'', publish_time = ''2024-01-01 10:00:00'',
                   keywords_col = [], crawl_time = current_timestamp w1,
                   content_file_path = None\<rparr>]\<rparr>"
  have "process_item e False (db ?st1) (scenario_item, w2) (?st1, 0, 0) = Inr (?st1, 0, Suc 0)"
    by (rule process_item_duplicate [OF scenario_hash]) simp_all
  then show "save_news_to_db e ?st1 [(scenario_item, w2)] False = Inr (?st1, 0, 1)"
    by (simp add: save_news_to_db_def)
qed

theorem scenario_twice_without_detail_witness:
  "save_news_to_db sample_env empty_state [(scenario_item, sample_world)] False =
     Inr (empty_state\<lparr>db := [''id-AB'' \<mapsto>
            \<lparr>title = ''A'', summary = ''B'', publish_time = ''2024-01-01 10:00:00'',
             keywords_col = [], crawl_time = ''2026-11-03 08:30:00'',
             content_file_path = None\<rparr>]\<rparr>, 1, 0)"
  using scenario_twice_without_detail [of empty_state sample_world sample_env sample_world]
  by (simp add: empty_state_def sample_world_def sample_env_def)

lemma process_item_missing_key:
  assumes "bad ''title'' = None \<or> bad ''brief'' = None"
  shows "process_item e fd committed (bad, w) (st, n, d) =
         Inl (KeyError (if bad ''title'' = None then ''title'' else ''brief''), st)"
  using assms
  by (auto simp: process_item_def get_content_hash_def getitem_def split: option.splits)

text \<open>
  C10. An item without the key \<open>keywords\<close> that is new to the table is inserted
  with the empty string in the column \<open>keywords\<close> (whenever the round reaches the
  INSERT and the data base accepts it): the missing key raises nothing. An item
  without \<open>title\<close> or without \<open>brief\<close> raises \<open>KeyError\<close> in
  \<open>get_content_hash\<close>, outside the \<open>try\<close> block: the exception is not caught and
  leaves \<open>save_news_to_db\<close>.
\<close>

theorem missing_keywords_stored_empty:
  assumes "item ''keywords'' = None"
    and "item ''title'' = Some t" and "item ''brief'' = Some b"
    and "item ''focus_date'' = Some f"
    and "\<not> execute_raises w"
    and "db st (md5_hexdigest e (t @ b)) = None"
    and "detail_phase e fd item w st (md5_hexdigest e (t @ b)) None = Inr (st1, path)"
    and "bad ''title'' = None \<or> bad ''brief'' = None"
  shows "process_item e fd committed (item, w) (st, n, d) =
           Inr (st1\<lparr>db := (db st)(md5_hexdigest e (t @ b) \<mapsto>
                  \<lparr>title = t, summary = b, publish_time = f, keywords_col = [],
                   crawl_time = current_timestamp w, content_file_path = path\<rparr>)\<rparr>, Suc n, d)
       \<and> process_item e fd committed (bad, w') (st, n, d) =
           Inl (KeyError (if bad ''title'' = None then ''title'' else ''brief''), st)
       \<and> save_news_to_db e st ((bad, w') # rest) fd =
           Inl (KeyError (if bad ''title'' = None then ''title'' else ''brief''), st)"
proof (intro conjI)
  have "db st1 = db st" using assms(7) by (rule detail_phase_db)
  from process_item_insert [OF assms(2,3,4,5,6,7) this, where n = n and d = d and committed = committed]
  show "process_item e fd committed (item, w) (st, n, d) =
           Inr (st1\<lparr>db := (db st)(md5_hexdigest e (t @ b) \<mapsto>
                  \<lparr>title = t, summary = b, publish_time = f, keywords_col = [],
                   crawl_time = current_timestamp w, content_file_path = path\<rparr>)\<rparr>, Suc n, d)"
    by (simp add: assms(1))
next
  show "process_item e fd committed (bad, w') (st, n, d) =
           Inl (KeyError (if bad ''title'' = None then ''title'' else ''brief''), st)"
    by (rule process_item_missing_key [OF assms(8)])
next
  show "save_news_to_db e st ((bad, w') # rest) fd =
           Inl (KeyError (if bad ''title'' = None then ''title'' else ''brief''), st)"
    by (simp add: save_news_to_db_def process_item_missing_key [OF assms(8)])
qed

theorem missing_keywords_stored_empty_witness:
  "process_item sample_env False Map.empty (scenario_item, sample_world) (empty_state, 0, 0) =
     Inr (empty_state\<lparr>db := [''id-AB'' \<mapsto>
            \<lparr>title = ''A'', summary = ''B'', publish_time = ''2024-01-01 10:00:00'',
             keywords_col = [], crawl_time = ''2026-11-03 08:30:00'',
             content_file_path = None\<rparr>]\<rparr>, Suc 0, 0)
   \<and> save_news_to_db sample_env empty_state
        [([''brief'' \<mapsto> ''B''], sample_world), (scenario_item, sample_world)] False =
     Inl (KeyError ''title'', empty_state)"
  using missing_keywords_stored_empty
    [where item = scenario_item and t = "''A''" and b = "''B''"
       and f = "''2024-01-01 10:00:00''" and w = sample_world and st = empty_state
       and e = sample_env and fd = False and ?st1.0 = empty_state and path = None
       and bad = "[''brief'' \<mapsto> ''B'']" and n = 0 and d = 0 and w' = sample_world
       and rest = "[(scenario_item, sample_world)]" and committed = Map.empty]
  by (simp add: scenario_item_def sample_env_def sample_world_def empty_state_def
      detail_phase_skip)

lemma process_all_duplicates:
  assumes "\<forall>x \<in> set batch. \<exists>h r. get_content_hash e (fst x) = Inr h \<and> db st h = Some r
             \<and> (fd \<longrightarrow> truthy (content_file_path r))"
  shows "process_all e fd committed batch (st, n, d) = Inr (st, n, d + length batch)"
  using assms
proof (induction batch arbitrary: d)
  case Nil
  then show ?case by simp
next
  case (Cons x xs)
  obtain item w where x: "x = (item, w)" by (cases x)
  from Cons.prems obtain h r where
    "get_content_hash e item = Inr h" "db st h = Some r" "fd \<longrightarrow> truthy (content_file_path r)"
    by (auto simp: x)
  then have "process_item e fd committed x (st, n, d) = Inr (st, n, Suc d)"
    unfolding x by (rule process_item_duplicate)
  moreover have "process_all e fd committed xs (st, n, Suc d) = Inr (st, n, Suc d + length xs)"
    using Cons.prems by (intro Cons.IH) simp
  ultimately show ?case by simp
qed

lemma scenario_first_run:
  assumes "db st = Map.empty" and "\<not> execute_raises w"
  shows "process_item e False committed (scenario_item, w) (st, n, d) =
         Inr (st\<lparr>db := [md5_hexdigest e ''AB'' \<mapsto>
                  \<lparr>title = ''A'', summary = ''B'', publish_time = ''2024-01-01 10:00:00'',
                   keywords_col = [], crawl_time = current_timestamp w,
                   content_file_path = None\<rparr>]\<rparr>, Suc n, d)"
proof -
  have d: "detail_phase e False scenario_item w st (md5_hexdigest e (''A'' @ ''B'')) None = Inr (st, None)"
    by (simp add: detail_phase_skip)
  have "process_item e False committed (scenario_item, w) (st, n, d) =
        Inr (st\<lparr>db := (db st)(md5_hexdigest e (''A'' @ ''B'') \<mapsto>
                 \<lparr>title = ''A'', summary = ''B'', publish_time = ''2024-01-01 10:00:00'',
                  keywords_col = (case scenario_item ''keywords'' of None \<Rightarrow> [] | Some k \<Rightarrow> k),
                  crawl_time = current_timestamp w, content_file_path = None\<rparr>)\<rparr>, Suc n, d)"
    by (rule process_item_insert [OF _ _ _ assms(2) _ d])
       (simp_all add: scenario_item_def assms(1))
  then show ?thesis by (simp add: assms(1) scenario_item_def)
qed

text \<open>
  C1. A batch that is already fully processed: every item has its row in the table
  and, when \<open>fetch_detailed\<close> is set, the row has its content file path. A run over
  such a batch, whatever the outside world does, returns the same state (no row
  inserted, no row changed, and nothing fetched, written or printed either), counts
  no item as new and counts every item as a duplicate.
\<close>

theorem second_pass_changes_nothing:
  assumes "\<forall>x \<in> set batch. \<exists>h r. get_content_hash e (fst x) = Inr h \<and> db st h = Some r
             \<and> (fetch_detailed \<longrightarrow> truthy (content_file_path r))"
  shows "save_news_to_db e st batch fetch_detailed = Inr (st, 0, length batch)"
  using process_all_duplicates [OF assms, where n = 0 and d = 0 and committed = "db st"]
  by (simp add: save_news_to_db_def)

theorem second_pass_changes_nothing_witness:
  "save_news_to_db sample_env empty_state
     [(scenario_item, sample_world), (scenario_item, sample_world)] False =
     Inr (empty_state\<lparr>db := [''id-AB'' \<mapsto>
            \<lparr>title = ''A'', summary = ''B'', publish_time = ''2024-01-01 10:00:00'',
             keywords_col = [], crawl_time = ''2026-11-03 08:30:00'',
             content_file_path = None\<rparr>]\<rparr>, 1, 1)
   \<and> save_news_to_db sample_env
       (empty_state\<lparr>db := [''id-AB'' \<mapsto>
            \<lparr>title = ''A'', summary = ''B'', publish_time = ''2024-01-01 10:00:00'',
             keywords_col = [], crawl_time = ''2026-11-03 08:30:00'',
             content_file_path = None\<rparr>]\<rparr>)
       [(scenario_item, sample_world), (scenario_item, sample_world)] False =
     Inr (empty_state\<lparr>db := [''id-AB'' \<mapsto>
            \<lparr>title = ''A'', summary = ''B'', publish_time = ''2024-01-01 10:00:00'',
             keywords_col = [], crawl_time = ''2026-11-03 08:30:00'',
             content_file_path = None\<rparr>]\<rparr>, 0, 2)"
proof
  let ?st1 = "empty_state\<lparr>db := [''id-AB'' \<mapsto>
            \<lparr>title = ''A'', summary = ''B'', publish_time = ''2024-01-01 10:00:00'',
             keywords_col = [], crawl_time = ''2026-11-03 08:30:00'',
             content_file_path = None\<rparr>]\<rparr>"
  have h: "get_content_hash sample_env scenario_item = Inr ''id-AB''"
    using scenario_hash [of sample_env] by (simp add: sample_env_def)
  have 1: "process_item sample_env False (db empty_state) (scenario_item, sample_world) (empty_state, 0, 0)
           = Inr (?st1, Suc 0, 0)"
    using scenario_first_run [where st = empty_state and w = sample_world and e = sample_env
        and n = 0 and d = 0 and committed = "db empty_state"]
    by (simp add: empty_state_def sample_world_def sample_env_def)
  have 2: "process_item sample_env False (db empty_state) (scenario_item, sample_world) (?st1, Suc 0, 0)
           = Inr (?st1, Suc 0, Suc 0)"
    by (rule process_item_duplicate [OF h]) simp_all
  show "save_news_to_db sample_env empty_state
     [(scenario_item, sample_world), (scenario_item, sample_world)] False = Inr (?st1, 1, 1)"
    by (simp add: save_news_to_db_def 1 2)
  show "save_news_to_db sample_env ?st1
       [(scenario_item, sample_world), (scenario_item, sample_world)] False = Inr (?st1, 0, 2)"
    using second_pass_changes_nothing
      [of "[(scenario_item, sample_world), (scenario_item, sample_world)]" sample_env ?st1 False] h
    by simp
qed

section \<open>The stored paths: invariant\<close>

lemma partition_path_nonempty: "partition_path e w st h dt = Inr (st', p) \<Longrightarrow> p \<noteq> []"
  by (auto simp: partition_path_def Let_def os_path_join_def join2_nonempty split: sum.splits)

lemma get_content_file_path_nonempty:
  "get_content_file_path e w st h pt = Inr (st', p) \<Longrightarrow> p \<noteq> []"
  unfolding get_content_file_path_def
  by (auto split: sum.splits dest: partition_path_nonempty)

lemma detail_phase_path:
  assumes "detail_phase e fd item w st h existing = Inr (st1, path)"
    and "existing \<noteq> Some (Some [])"
  shows "path \<noteq> Some []"
proof (cases "fd \<and> needs_detail existing")
  case False
  with assms show ?thesis by (cases existing) (auto simp: detail_phase_skip)
next
  case True
  with assms(1) show ?thesis
    by (auto simp: detail_phase_def fetch_detailed_content_def Let_def
        split: sum.splits if_splits prod.splits
        dest!: get_content_file_path_nonempty)
qed


lemma persist_nonempty:
  "persist item w committed h ex path tbl = Inr (tbl', t) \<Longrightarrow> paths_nonempty tbl \<Longrightarrow> path \<noteq> Some []
   \<Longrightarrow> paths_nonempty tbl'"
  by (auto simp: persist_def sql_update_def sql_insert_def paths_nonempty_def
      split: option.splits if_splits sum.splits)

text \<open>After an exception of the \<open>try\<close> block the table is the one before the round,
  or the one of the last commit.\<close>

lemma persist_error_table:
  "persist item w committed h ex path tbl = Inl (err, tbl') \<Longrightarrow> tbl' = tbl \<or> tbl' = committed"
  by (auto simp: persist_def sql_insert_def failed_execute_def
      split: option.splits if_splits sum.splits)

lemma process_item_InrE:
  assumes "process_item e fd committed (item, w) (st, n, d) = Inr (st', n', d')"
  obtains h st1 path where "get_content_hash e item = Inr h"
    and "detail_phase e fd item w st h (map_option content_file_path (db st h)) = Inr (st1, path)"
    and "(\<exists>t. persist item w committed h (map_option content_file_path (db st h)) path (db st1)
                 = Inr (db st', t))
         \<or> ((\<exists>err. persist item w committed h (map_option content_file_path (db st h)) path (db st1)
                 = Inl (err, db st')) \<and> n' = n \<and> d' = d)"
  using assms
  by (auto simp: process_item_def Let_def split: sum.splits prod.splits tally.splits)

lemma process_item_inv:
  assumes "process_item e fd committed x (st, n, d) = Inr (st', n', d')"
    and "paths_nonempty (db st)" and "paths_nonempty committed"
  shows "paths_nonempty (db st')"
proof -
  obtain item w where x: "x = (item, w)" by (cases x)
  from assms(1) [unfolded x] obtain h st1 path where
    dp: "detail_phase e fd item w st h (map_option content_file_path (db st h)) = Inr (st1, path)"
    and ps: "(\<exists>t. persist item w committed h (map_option content_file_path (db st h)) path (db st1)
                 = Inr (db st', t))
         \<or> ((\<exists>err. persist item w committed h (map_option content_file_path (db st h)) path (db st1)
                 = Inl (err, db st')) \<and> n' = n \<and> d' = d)"
    by (rule process_item_InrE)
  have db1: "db st1 = db st" using dp by (rule detail_phase_db)
  have "map_option content_file_path (db st h) \<noteq> Some (Some [])"
    using assms(2) by (auto simp: paths_nonempty_def)
  with dp have "path \<noteq> Some []" by (rule detail_phase_path)
  with ps db1 assms(2,3) show ?thesis
    by (auto dest: persist_nonempty dest!: persist_error_table)
qed

lemma reachable_paths_nonempty: "reachable e st \<Longrightarrow> paths_nonempty (db st)"
proof (induction rule: reachable.induct)
  case (fresh st)
  then show ?case by (simp add: paths_nonempty_def)
next
  case (step st0 st fetch_detailed x n d st' n' d')
  then show ?case by (auto dest: process_item_inv)
next
  case (same_table st st')
  then show ?case by simp
qed


lemma scenario_fetch_run:
  "process_item sample_env True committed (scenario_item, sample_world) (empty_state, 0, 0)
   = Inr (fetched_state, 1, 0)"
  by (simp add: process_item_def get_content_hash_def getitem_def sample_env_def
      sample_world_def empty_state_def scenario_item_def fetched_state_def
      detail_phase_def needs_detail_def fetch_detailed_content_def truthy_def
      get_content_file_path_def py_strptime_def partition_path_def strftime_Y_def
      strftime_m_def strftime_d_def digit_def os_path_join_def join2_def
      startswith_sep_def endswith_sep_def makedirs_def save_detailed_content_def
      dirname_def rstrip_sep_def dir_exists_def persist_def sql_insert_def Let_def
      insert_commute)

section \<open>Runs of the pipeline: what is kept\<close>




lemma fetched_state_reachable: "reachable sample_env fetched_state"
proof -
  have "reachable sample_env empty_state"
    by (rule reachable.fresh) (simp add: empty_state_def)
  from this this show ?thesis
    by (rule reachable.step) (rule scenario_fetch_run)
qed

lemma fetched_state_row:
  "db fetched_state ''id-AB'' =
     Some \<lparr>title = ''A'', summary = ''B'', publish_time = ''2024-01-01 10:00:00'',
           keywords_col = [], crawl_time = ''2026-11-03 08:30:00'',
           content_file_path = Some ''2024/01/01/id-AB.txt''\<rparr>"
  by (simp add: fetched_state_def)

lemma sample_hash: "get_content_hash sample_env scenario_item = Inr ''id-AB''"
  using scenario_hash [of sample_env] by (simp add: sample_env_def)

text \<open>
  C2. In a state the pipeline can be in, an item whose identity has a row with a
  content file path is a duplicate, whatever \<open>fetch_detailed\<close> is: the phase that
  would fetch the detail returns the stored path and leaves the state as it is, so
  no \<open>Http_get\<close> joins the trace, and the round changes nothing but the duplicate
  count.
\<close>

theorem no_refetch_once_path_stored:
  assumes "reachable e st" and "get_content_hash e item = Inr h"
    and "db st h = Some r" and "content_file_path r \<noteq> None"
  shows "detail_phase e fetch_detailed item w st h (Some (content_file_path r))
           = Inr (st, content_file_path r)
       \<and> process_item e fetch_detailed committed (item, w) (st, n, d) = Inr (st, n, Suc d)"
proof -
  have "paths_nonempty (db st)" using assms(1) by (rule reachable_paths_nonempty)
  with assms(3,4) have tr: "truthy (content_file_path r)"
    by (cases "content_file_path r") (auto simp: paths_nonempty_def truthy_def)
  then have "\<not> (fetch_detailed \<and> needs_detail (Some (content_file_path r)))"
    by (simp add: needs_detail_def)
  then have "detail_phase e fetch_detailed item w st h (Some (content_file_path r))
           = Inr (st, content_file_path r)"
    by (simp add: detail_phase_skip)
  moreover have "process_item e fetch_detailed committed (item, w) (st, n, d) = Inr (st, n, Suc d)"
    using assms(2,3) tr by (intro process_item_duplicate) auto
  ultimately show ?thesis by simp
qed

theorem no_refetch_once_path_stored_witness:
  "process_item sample_env True (db fetched_state) (scenario_item, sample_world)
     (fetched_state, 1, 0)
     = Inr (fetched_state, 1, Suc 0)"
  using no_refetch_once_path_stored
    [OF fetched_state_reachable sample_hash fetched_state_row,
     where fetch_detailed = True and w = sample_world and n = 1 and d = 0
       and committed = "db fetched_state"]
  by simp



section \<open>Failed detail and failed persistence\<close>

lemma detail_phase_failed:
  assumes "item ''title'' = Some t" and "item ''url'' = Some url"
    and "item ''focus_date'' = Some f" and "needs_detail existing"
    and "\<not> truthy (detail_page w url)
         \<or> (\<exists>st3 p. get_content_file_path e w (after_fetch st t url) h (Some f) = Inr (st3, p)
               \<and> \<not> snd (save_detailed_content e w st3 p (detail_page w url)))"
  shows "\<exists>st1. detail_phase e True item w st h existing = Inr (st1, None)"
  using assms
  by (auto simp: detail_phase_def fetch_detailed_content_def getitem_def after_fetch_def Let_def
      split: prod.splits)

text \<open>
  Where the detail fetcher returns nothing, or the path is computed and writing the
  file fails, the round goes on without a path: an identity that has a row keeps its
  table and is counted as a duplicate, and a new identity whose INSERT is accepted
  is stored with the path \<open>None\<close>.
\<close>

lemma failed_fetch_or_write_stores_no_path:
  assumes "item ''title'' = Some t" and "item ''brief'' = Some b"
    and "item ''url'' = Some url" and "item ''focus_date'' = Some f"
    and "stored_path st (md5_hexdigest e (t @ b)) = None"
    and "\<not> execute_raises w"
    and "\<not> truthy (detail_page w url)
         \<or> (\<exists>st3 p. get_content_file_path e w (after_fetch st t url) (md5_hexdigest e (t @ b)) (Some f)
                       = Inr (st3, p)
               \<and> \<not> snd (save_detailed_content e w st3 p (detail_page w url)))"
  shows "\<exists>st1. db st1 = db st \<and>
           process_item e True committed (item, w) (st, n, d) =
             (case db st (md5_hexdigest e (t @ b)) of
                Some r \<Rightarrow> Inr (st1, n, Suc d)
              | None \<Rightarrow>
                  Inr (st1\<lparr>db := (db st)(md5_hexdigest e (t @ b) \<mapsto>
                         \<lparr>title = t, summary = b, publish_time = f,
                          keywords_col = (case item ''keywords'' of None \<Rightarrow> [] | Some k \<Rightarrow> k),
                          crawl_time = current_timestamp w,
                          content_file_path = None\<rparr>)\<rparr>, Suc n, d))"
proof -
  let ?h = "md5_hexdigest e (t @ b)"
  let ?ex = "map_option content_file_path (db st ?h)"
  have hash: "get_content_hash e item = Inr ?h"
    using assms(1,2) by (rule get_content_hash_eq)
  have needs: "needs_detail ?ex"
    using assms(5) by (auto simp: stored_path_def needs_detail_def truthy_def split: option.splits)
  from detail_phase_failed [OF assms(1,3,4) needs assms(7)]
  obtain st1 where dp: "detail_phase e True item w st ?h ?ex = Inr (st1, None)" by blast
  have db1: "db st1 = db st" using dp by (rule detail_phase_db)
  show ?thesis
  proof (cases "db st ?h")
    case (Some r)
    then have "persist item w committed ?h ?ex None (db st1) = Inr (db st1, Counted_duplicate)"
      by (simp add: persist_duplicate truthy_def)
    then have "process_item e True committed (item, w) (st, n, d) = Inr (st1, n, Suc d)"
      by (simp add: process_item_def hash dp)
    with db1 Some show ?thesis by auto
  next
    case None
    have "process_item e True committed (item, w) (st, n, d) =
          Inr (st1\<lparr>db := (db st)(?h \<mapsto>
                 \<lparr>title = t, summary = b, publish_time = f,
                  keywords_col = (case item ''keywords'' of None \<Rightarrow> [] | Some k \<Rightarrow> k),
                  crawl_time = current_timestamp w, content_file_path = None\<rparr>)\<rparr>, Suc n, d)"
      using dp None by (intro process_item_insert assms(1,2,4,6) db1) simp_all
    with db1 None show ?thesis by auto
  qed
qed

lemma offline_round:
  "process_item sample_env True committed (other_item, offline_world) (empty_state, 0, 0) =
     Inr (empty_state\<lparr>db := [''id-CD'' \<mapsto>
             \<lparr>title = ''C'', summary = ''D'', publish_time = ''2024-01-01 10:00:00'',
              keywords_col = [], crawl_time = ''2026-11-03 08:30:00'',
              content_file_path = None\<rparr>],
           trace := [Print_fetching ''C'', Http_get ''http://x/2'', Sleep]\<rparr>, 1, 0)"
  by (simp add: process_item_def get_content_hash_def getitem_def sample_env_def
      offline_world_def sample_world_def empty_state_def other_item_def
      detail_phase_def needs_detail_def fetch_detailed_content_def truthy_def
      persist_def sql_insert_def Let_def)

lemma readonly_round:
  "db st ''id-AB'' = None \<Longrightarrow>
   process_item sample_env True committed (scenario_item, readonly_world) (st, n, d) =
     Inl (OSError, st\<lparr>trace := trace st @ [Print_fetching ''A'', Http_get ''http://x/1'']\<rparr>)"
  by (simp add: process_item_def get_content_hash_def getitem_def sample_env_def
      readonly_world_def sample_world_def scenario_item_def
      detail_phase_def needs_detail_def fetch_detailed_content_def truthy_def
      get_content_file_path_def py_strptime_def partition_path_def makedirs_def
      left_behind_def Let_def)

text \<open>
  C3 fails where the storage failure is the creation of the partition directory.
  The batch: an item whose detail page is missing, then the scenario item, whose
  detail is fetched while no directory can be created. \<open>os.makedirs\<close> raises in
  \<open>get_content_file_path\<close>, first inside its \<open>try\<close> block and then in the handler,
  outside every \<open>try\<close> (crawler.py 142, called from 183): \<open>OSError\<close> leaves
  \<open>save_news_to_db\<close>. The scenario item is not inserted, and the row of the first
  item, inserted without path, is not committed: the table is empty afterwards.
\<close>

theorem directory_failure_aborts_run:
  "save_news_to_db sample_env empty_state
     [(other_item, offline_world), (scenario_item, readonly_world)] True =
     Inl (OSError,
          empty_state\<lparr>trace := [Print_fetching ''C'', Http_get ''http://x/2'', Sleep,
                                  Print_fetching ''A'', Http_get ''http://x/1'']\<rparr>)"
proof -
  let ?st1 = "empty_state\<lparr>db := [''id-CD'' \<mapsto>
             \<lparr>title = ''C'', summary = ''D'', publish_time = ''2024-01-01 10:00:00'',
              keywords_col = [], crawl_time = ''2026-11-03 08:30:00'',
              content_file_path = None\<rparr>],
           trace := [Print_fetching ''C'', Http_get ''http://x/2'', Sleep]\<rparr>"
  have r: "process_item sample_env True (db empty_state) (scenario_item, readonly_world)
             (?st1, 1, 0)
        = Inl (OSError,
               ?st1\<lparr>trace := trace ?st1 @ [Print_fetching ''A'', Http_get ''http://x/1'']\<rparr>)"
    by (rule readonly_round) simp
  have run: "process_all sample_env True (db empty_state)
               [(other_item, offline_world), (scenario_item, readonly_world)] (empty_state, 0, 0)
        = Inl (OSError,
               ?st1\<lparr>trace := trace ?st1 @ [Print_fetching ''A'', Http_get ''http://x/1'']\<rparr>)"
    using r by (simp add: offline_round)
  show ?thesis
    unfolding save_news_to_db_def run by (simp add: empty_state_def)
qed

lemma process_all_append:
  "process_all e fd committed (xs @ ys) s =
     (case process_all e fd committed xs s of Inl err \<Rightarrow> Inl err | Inr s' \<Rightarrow> process_all e fd committed ys s')"
  by (induction xs arbitrary: s) (auto split: sum.splits)

text \<open>
  An exception of the \<open>try\<close> block is caught: the round prints the failure with the
  title of the item, leaves both counters as they are, and the loop goes on; the
  table is the one before the round, or the one of the last commit.
\<close>

lemma persist_raises_round:
  assumes "persist_raises e fd committed (item, w) st"
  shows "\<exists>st1 t err tbl. item ''title'' = Some t \<and> (tbl = db st \<or> tbl = committed) \<and>
           process_item e fd committed (item, w) (st, n, d) =
             Inr (st1\<lparr>db := tbl, trace := trace st1 @ [Print_save_failed t err]\<rparr>, n, d)"
proof -
  obtain h where h: "get_content_hash e item = Inr h"
    using assms by (cases "get_content_hash e item") (simp_all add: persist_raises_def)
  obtain st1 path where
    dp: "detail_phase e fd item w st h (map_option content_file_path (db st h)) = Inr (st1, path)"
    using assms h
    by (cases "detail_phase e fd item w st h (map_option content_file_path (db st h))")
       (auto simp: persist_raises_def Let_def)
  obtain err tbl where
    ps: "persist item w committed h (map_option content_file_path (db st h)) path (db st1)
         = Inl (err, tbl)"
    using assms h dp
    by (cases "persist item w committed h (map_option content_file_path (db st h)) path (db st1)")
       (auto simp: persist_raises_def Let_def)
  from h obtain t where t: "item ''title'' = Some t"
    by (auto simp: get_content_hash_def getitem_def split: option.splits)
  have "db st1 = db st" using dp by (rule detail_phase_db)
  with ps have "tbl = db st \<or> tbl = committed" by (auto dest: persist_error_table)
  moreover have "process_item e fd committed (item, w) (st, n, d) =
             Inr (st1\<lparr>db := tbl, trace := trace st1 @ [Print_save_failed t err]\<rparr>, n, d)"
    by (simp add: process_item_def h dp ps t getitem_def)
  ultimately show ?thesis using t by blast
qed

lemma rollback_round:
  "db st ''id-CD'' = None \<Longrightarrow>
   process_item sample_env False committed (other_item, rollback_world) (st, n, d) =
     Inr (st\<lparr>db := committed, trace := trace st @ [Print_save_failed ''C'' OperationalError]\<rparr>, n, d)"
  by (simp add: process_item_def get_content_hash_def getitem_def sample_env_def
      rollback_world_def sample_world_def other_item_def detail_phase_skip
      persist_def failed_execute_def Let_def)

text \<open>
  C9 fails where the exception of \<open>c.execute\<close> comes with a rollback, as SQLite does
  when the disk is full. The batch: the scenario item, whose INSERT is accepted,
  then an item whose INSERT raises in that way. The exception is caught and printed
  and the run returns, but the open transaction is gone: the row of the scenario
  item is not in the table that is committed, although the item is counted as new.
\<close>

theorem rollback_loses_earlier_rows:
  "save_news_to_db sample_env empty_state
     [(scenario_item, sample_world), (other_item, rollback_world)] False =
     Inr (empty_state\<lparr>trace := [Print_save_failed ''C'' OperationalError]\<rparr>, 1, 0)"
proof -
  let ?st1 = "empty_state\<lparr>db := [md5_hexdigest sample_env ''AB'' \<mapsto>
                  \<lparr>title = ''A'', summary = ''B'', publish_time = ''2024-01-01 10:00:00'',
                   keywords_col = [], crawl_time = current_timestamp sample_world,
                   content_file_path = None\<rparr>]\<rparr>"
  have 1: "process_item sample_env False (db empty_state) (scenario_item, sample_world)
             (empty_state, 0, 0) = Inr (?st1, Suc 0, 0)"
    by (rule scenario_first_run) (simp_all add: empty_state_def sample_world_def)
  have 2: "process_item sample_env False (db empty_state) (other_item, rollback_world)
             (?st1, Suc 0, 0) =
           Inr (?st1\<lparr>db := db empty_state,
                     trace := trace ?st1 @ [Print_save_failed ''C'' OperationalError]\<rparr>, Suc 0, 0)"
    by (rule rollback_round) (simp add: sample_env_def)
  show ?thesis
    by (simp add: save_news_to_db_def 1 2) (simp add: empty_state_def)
qed

section \<open>Content file store: properties\<close>

lemma partition_path_eq:
  "partition_path e w st h dt =
     (if makedirs_raises w (partition_dir e dt)
      then Inl (OSError, st\<lparr>dirs := dirs st \<union> left_behind w (partition_dir e dt)\<rparr>)
      else Inr (st\<lparr>dirs := dirs st \<union> set (dir_levels [] (partition_dir e dt))\<rparr>,
                os_path_join (strftime_Y dt) [strftime_m dt, strftime_d dt, h @ ''.txt'']))"
  by (simp add: partition_path_def makedirs_def partition_dir_def Let_def)







lemma get_content_file_path_levels:
  assumes "get_content_file_path e w st h pt = Inr (st', p)"
  shows "\<exists>dt. set (dir_levels [] (partition_dir e dt)) \<subseteq> dirs st'
           \<and> p = os_path_join (strftime_Y dt) [strftime_m dt, strftime_d dt, h @ ''.txt'']"
proof (cases "py_strptime e pt")
  case (Inl a)
  with assms have "partition_path e w st h (now w) = Inr (st', p)"
    by (simp add: get_content_file_path_def)
  then show ?thesis
    by (auto simp: partition_path_eq split: if_splits intro!: exI [of _ "now w"])
next
  case (Inr dt0)
  show ?thesis
  proof (cases "makedirs_raises w (partition_dir e dt0)")
    case False
    with Inr assms show ?thesis
      by (auto simp: get_content_file_path_def partition_path_eq intro!: exI [of _ dt0])
  next
    case True
    with Inr assms have
      "partition_path e w (st\<lparr>dirs := dirs st \<union> left_behind w (partition_dir e dt0)\<rparr>) h (now w)
       = Inr (st', p)"
      by (simp add: get_content_file_path_def partition_path_eq)
    then show ?thesis
      by (auto simp: partition_path_eq split: if_splits intro!: exI [of _ "now w"])
  qed
qed

lemma written_path_directory:
  assumes "get_content_file_path e w st h pt = Inr (st', p)" and "CHR ''/'' \<notin> set h"
  shows "dir_exists st' (dirname (os_path_join (content_base_dir e) [p]))"
proof -
  from assms(1) obtain dt where
    st': "set (dir_levels [] (partition_dir e dt)) \<subseteq> dirs st'"
    and p: "p = os_path_join (strftime_Y dt) [strftime_m dt, strftime_d dt, h @ ''.txt'']"
    using get_content_file_path_levels by blast
  have "\<not> startswith_sep h" using assms(2) by (cases h) (auto simp: startswith_sep_def)
  then have p': "p = date_partition dt @ ''/'' @ (h @ ''.txt'')"
    unfolding p by (rule relative_path_eq)
  have full: "os_path_join (content_base_dir e) [p] = partition_dir e dt @ ''/'' @ (h @ ''.txt'')"
    unfolding p' os_path_join_def foldl.simps by (rule full_path_eq)
  have "CHR ''/'' \<notin> set (h @ ''.txt'')" using assms(2) by simp
  then have "dirname (partition_dir e dt @ ''/'' @ (h @ ''.txt'')) = partition_dir e dt"
    by (intro dirname_leaf partition_dir_facts)
  moreover have "partition_dir e dt \<in> set (dir_levels [] (partition_dir e dt))"
    using dir_levels_last [of "[]" "partition_dir e dt"] partition_dir_facts [of e dt]
    by (simp add: endswith_sep_def)
  ultimately show ?thesis using st' by (auto simp: full dir_exists_def)
qed

lemma save_detailed_content_ok:
  "snd (save_detailed_content e w st file_path content) =
     (truthy content \<and> dir_exists st (dirname (os_path_join (content_base_dir e) [file_path]))
      \<and> file_io w (os_path_join (content_base_dir e) [file_path]) = Written)"
  by (cases content; cases "file_io w (os_path_join (content_base_dir e) [file_path])")
     (simp_all add: save_detailed_content_def truthy_def Let_def)

lemma save_detailed_content_dirs:
  "dirs (fst (save_detailed_content e w st file_path content)) = dirs st"
  by (cases content; cases "file_io w (os_path_join (content_base_dir e) [file_path])")
     (simp_all add: save_detailed_content_def Let_def)

lemma save_detailed_content_file:
  "snd (save_detailed_content e w st file_path content) \<Longrightarrow>
   files (fst (save_detailed_content e w st file_path content))
     (os_path_join (content_base_dir e) [file_path]) = content"
  by (cases content; cases "file_io w (os_path_join (content_base_dir e) [file_path])")
     (simp_all add: save_detailed_content_def Let_def split: if_splits)

text \<open>
  C8, as the code has it. \<open>save_detailed_content\<close> creates no directory. It
  returns \<open>True\<close> exactly when the content is not empty, the directory of the file
  exists and opening and writing the file raise nothing, and then the file holds
  the content; in every other case, a missing directory included, it returns
  \<open>False\<close>. The directory levels are created by \<open>get_content_file_path\<close>: for the
  path it returns for an identity without separator, the directory of the file
  exists, so that writing to this path fails only for empty content or an I/O error.
\<close>

theorem write_creates_no_directory:
  assumes "CHR ''/'' \<notin> set content_hash"
  shows "dirs (fst (save_detailed_content e w st file_path content)) = dirs st
       \<and> snd (save_detailed_content e w st file_path content) =
           (truthy content
            \<and> dir_exists st (dirname (os_path_join (content_base_dir e) [file_path]))
            \<and> file_io w (os_path_join (content_base_dir e) [file_path]) = Written)
       \<and> (snd (save_detailed_content e w st file_path content) \<longrightarrow>
            files (fst (save_detailed_content e w st file_path content))
              (os_path_join (content_base_dir e) [file_path]) = content)
       \<and> (\<forall>st' p. get_content_file_path e w' st content_hash pt = Inr (st', p) \<longrightarrow>
            dir_exists st' (dirname (os_path_join (content_base_dir e) [p]))
            \<and> snd (save_detailed_content e w st' p content) =
                (truthy content \<and> file_io w (os_path_join (content_base_dir e) [p]) = Written))"
proof (intro conjI allI impI)
  show "dirs (fst (save_detailed_content e w st file_path content)) = dirs st"
    by (rule save_detailed_content_dirs)
  show "snd (save_detailed_content e w st file_path content) =
           (truthy content
            \<and> dir_exists st (dirname (os_path_join (content_base_dir e) [file_path]))
            \<and> file_io w (os_path_join (content_base_dir e) [file_path]) = Written)"
    by (rule save_detailed_content_ok)
  show "files (fst (save_detailed_content e w st file_path content))
              (os_path_join (content_base_dir e) [file_path]) = content"
    if "snd (save_detailed_content e w st file_path content)"
    using that by (rule save_detailed_content_file)
  fix st' p
  assume g: "get_content_file_path e w' st content_hash pt = Inr (st', p)"
  then show d: "dir_exists st' (dirname (os_path_join (content_base_dir e) [p]))"
    using assms by (rule written_path_directory)
  then show "snd (save_detailed_content e w st' p content) =
                (truthy content \<and> file_io w (os_path_join (content_base_dir e) [p]) = Written)"
    by (simp add: save_detailed_content_ok)
qed

theorem write_creates_no_directory_witness:
  "snd (save_detailed_content sample_env sample_world
          (empty_state\<lparr>dirs := {''news'', ''news/2024'', ''news/2024/01'', ''news/2024/01/01''}\<rparr>)
          ''2024/01/01/id-AB.txt'' (Some ''Paragraph one.''))
   \<and> \<not> snd (save_detailed_content sample_env full_disk_world
          (empty_state\<lparr>dirs := {''news'', ''news/2024'', ''news/2024/01'', ''news/2024/01/01''}\<rparr>)
          ''2024/01/01/id-AB.txt'' (Some ''Paragraph one.''))"
proof -
  let ?st' = "empty_state\<lparr>dirs := {''news'', ''news/2024'', ''news/2024/01'', ''news/2024/01/01''}\<rparr>"
  have g: "get_content_file_path sample_env sample_world empty_state ''id-AB''
             (Some ''2024-01-01 10:00:00'') = Inr (?st', ''2024/01/01/id-AB.txt'')"
    by (simp add: get_content_file_path_def partition_path_def makedirs_def Let_def
        py_strptime_def sample_env_def sample_world_def empty_state_def os_path_join_def
        join2_def startswith_sep_def endswith_sep_def strftime_Y_def strftime_m_def
        strftime_d_def digit_def insert_commute)
  have no_sep: "CHR ''/'' \<notin> set ''id-AB''" by simp
  from write_creates_no_directory [OF no_sep, of sample_env sample_world empty_state
      "''x''" "Some ''Paragraph one.''" sample_world "Some ''2024-01-01 10:00:00''"] g
  have 1: "snd (save_detailed_content sample_env sample_world ?st' ''2024/01/01/id-AB.txt''
              (Some ''Paragraph one.'')) =
           (truthy (Some ''Paragraph one.'')
            \<and> file_io sample_world
                 (os_path_join (content_base_dir sample_env) [''2024/01/01/id-AB.txt''])
               = Written)"
    by blast
  from write_creates_no_directory [OF no_sep, of sample_env full_disk_world empty_state
      "''x''" "Some ''Paragraph one.''" sample_world "Some ''2024-01-01 10:00:00''"] g
  have 2: "snd (save_detailed_content sample_env full_disk_world ?st' ''2024/01/01/id-AB.txt''
              (Some ''Paragraph one.'')) =
           (truthy (Some ''Paragraph one.'')
            \<and> file_io full_disk_world
                 (os_path_join (content_base_dir sample_env) [''2024/01/01/id-AB.txt''])
               = Written)"
    by blast
  show ?thesis
    unfolding 1 2 by (simp add: truthy_def sample_world_def full_disk_world_def)
qed

text \<open>
  C8 as stated fails: for a path whose directory does not exist,
  \<open>save_detailed_content\<close> creates no directory and writes no file, although the
  content is not empty and no other I/O error occurs.
\<close>

theorem write_creates_no_directory_counterexample:
  "dirs (fst (save_detailed_content sample_env sample_world empty_state
               ''2024/01/01/id-AB.txt'' (Some ''Paragraph one.''))) = {}
   \<and> files (fst (save_detailed_content sample_env sample_world empty_state
               ''2024/01/01/id-AB.txt'' (Some ''Paragraph one.'')))
        ''news/2024/01/01/id-AB.txt'' = None
   \<and> \<not> snd (save_detailed_content sample_env sample_world empty_state
               ''2024/01/01/id-AB.txt'' (Some ''Paragraph one.''))"
  by (simp add: save_detailed_content_def Let_def sample_env_def sample_world_def
      empty_state_def os_path_join_def join2_def startswith_sep_def endswith_sep_def
      dirname_def rstrip_sep_def dir_exists_def)

end
